theory Spec2Isabelle
  imports Main
begin

section \<open>The capture session of \<^verbatim>\<open>src/capture/src/har-capture.ts\<close>\<close>

text \<open>
  \<^verbatim>\<open>captureWithHar(urls, options)\<close> drives a Playwright browser, lets Playwright record the
  traffic into a HAR file, reads that file back and summarises it. The function is a
  straight sequence of awaited calls into Playwright and Node; every one of them can
  reject. The embedding threads an explicit \<open>world\<close> (the disk, the live browser
  resources and the chronological list of calls made) through the function, and takes
  the outcome of every external call from an \<open>env\<close> record: the model says what the
  function does for every behaviour of its surroundings.
\<close>

subsection \<open>The HAR document, as far as the function reads it\<close>

text \<open>
  The function reads \<^verbatim>\<open>harJson.log.entries\<close>, \<^verbatim>\<open>entry.request.cookies\<close>,
  \<^verbatim>\<open>entry.response.cookies\<close>, \<^verbatim>\<open>cookie.name\<close> and \<^verbatim>\<open>cookie.value\<close>, and guards most of these reads
  with a truthiness test. A property that may be absent is an \<open>option\<close>; where present,
  \<^verbatim>\<open>entries\<close> and \<^verbatim>\<open>cookies\<close> are arrays and names and values are strings, as the HAR format
  has them.
\<close>

datatype cookie = Cookie (cookie_name: string) (cookie_value: string)

datatype message = Message (msg_cookies: "cookie list option")

datatype entry = Entry (request: "message option") (response: "message option")

datatype har_log = Log (entries: "entry list option")

datatype har = Har (log: "har_log option")

text \<open>
  The text of a file is represented by what \<^verbatim>\<open>JSON.parse\<close> makes of it: \<open>Garbage\<close>
  is any text \<^verbatim>\<open>JSON.parse\<close> rejects.
\<close>

datatype content = Garbage | HarJson har

subsection \<open>Interfaces \<^verbatim>\<open>CaptureResult\<close> and \<^verbatim>\<open>CaptureOptions\<close>\<close>

record crawl_result =
  pagesCrawled :: nat
  openApiSource :: "string option"

record CaptureResult =
  har :: har
  requestCount :: nat
  "method" :: string
  crawlResult :: "crawl_result option"
  cookies :: "string \<rightharpoonup> string"

record crawl_options =
  maxPages :: nat
  discoverOpenApi :: bool

record CaptureOptions =
  waitMs :: "int option"
  headless :: "bool option"
  crawl :: "bool option"
  crawlOptions :: "crawl_options option"
  userDataDir :: "string option"

subsection \<open>The world and the environment\<close>

type_synonym path = string

text \<open>A browser context object: the destinations its HAR recorders will write to.\<close>

type_synonym browser_context = "path list"

datatype event =
    Launch "bool option"
  | NewContext path "string option"
  | RouteFromHAR path
  | CloseContext browser_context
  | NewPage
  | ConsoleLog string
  | ConsoleError string
  | Goto string
  | WaitForTimeout int
  | CloseBrowser
  | ReadFile path
  | Unlink path

record world =
  files :: "path \<rightharpoonup> content"
  browser_running :: bool
  open_contexts :: nat
  events :: "event list"

datatype error =
    LaunchFailed
  | NewContextFailed
  | RouteFromHARFailed
  | ContextCloseFailed
  | NewPageFailed
  | GotoFailed
  | WaitForTimeoutFailed
  | BrowserCloseFailed
  | ReadFileFailed
  | UnlinkFailed
  | SyntaxError
  | TypeError

text \<open>
  The outcome of every external call. \<open>newContext_ok\<close>, \<open>context_close_ok\<close> and \<open>now\<close>
  are indexed by the call's position in the function (0 for the first block of lines
  30 to 58, 1 for the capture proper); \<open>goto_ok\<close> and \<open>waitForTimeout_ok\<close> by the
  position of the target in \<^verbatim>\<open>urls\<close>. \<open>flushed p\<close> is the text Playwright's recorder
  leaves at destination \<open>p\<close> when its context is closed.
\<close>

record env =
  launch_ok :: bool
  newContext_ok :: "nat \<Rightarrow> bool"
  routeFromHAR_ok :: bool
  context_close_ok :: "nat \<Rightarrow> bool"
  now :: "nat \<Rightarrow> nat"
  newPage_ok :: bool
  goto_ok :: "nat \<Rightarrow> string \<Rightarrow> bool"
  waitForTimeout_ok :: "nat \<Rightarrow> bool"
  browser_close_ok :: bool
  flushed :: "path \<Rightarrow> content"
  readFile_ok :: bool
  unlink_ok :: bool

type_synonym 'a io = "world \<Rightarrow> (error + 'a) \<times> world"

definition emit :: "event \<Rightarrow> world \<Rightarrow> world" where
  "emit e w = w\<lparr>events := events w @ [e]\<rparr>"

text \<open>\<^verbatim>\<open>await a; rest\<close>: a rejection of \<open>a\<close> leaves the function at once.\<close>

definition andThen :: "'a io \<Rightarrow> ('a \<Rightarrow> 'b io) \<Rightarrow> 'b io" where
  "andThen a rest w = (case a w of (Inl e, w') \<Rightarrow> (Inl e, w') | (Inr x, w') \<Rightarrow> rest x w')"

subsection \<open>Playwright and Node, as the function uses them\<close>

text \<open>
  These calls are library code, not code of the repository. Each is modelled by what its
  documentation says it does when it resolves, with the environment deciding whether it
  resolves; a call that rejects changes nothing but the list of calls. Playwright saves
  the HAR of a context (of \<^verbatim>\<open>recordHar\<close> and of \<^verbatim>\<open>routeFromHAR\<close> with \<^verbatim>\<open>update: true\<close>) when
  \<^verbatim>\<open>context.close()\<close> is called, which is what lines 88 and 93 rely on.
\<close>

definition launch :: "env \<Rightarrow> bool option \<Rightarrow> unit io" where
  "launch E h w =
     (if launch_ok E then (Inr (), (emit (Launch h) w)\<lparr>browser_running := True\<rparr>)
      else (Inl LaunchFailed, emit (Launch h) w))"

definition newContext :: "env \<Rightarrow> nat \<Rightarrow> path \<Rightarrow> string option \<Rightarrow> browser_context io" where
  "newContext E k p ua w =
     (if newContext_ok E k
      then (Inr [p], (emit (NewContext p ua) w)\<lparr>open_contexts := Suc (open_contexts w)\<rparr>)
      else (Inl NewContextFailed, emit (NewContext p ua) w))"

text \<open>With \<^verbatim>\<open>update: true\<close> the context records into the given file as well.\<close>

definition routeFromHAR :: "env \<Rightarrow> browser_context \<Rightarrow> path \<Rightarrow> browser_context io" where
  "routeFromHAR E c p w =
     (if routeFromHAR_ok E then (Inr (c @ [p]), emit (RouteFromHAR p) w)
      else (Inl RouteFromHARFailed, emit (RouteFromHAR p) w))"

text \<open>Closing a context is what saves its recordings: each destination is written.\<close>

fun flush :: "env \<Rightarrow> path list \<Rightarrow> (path \<rightharpoonup> content) \<Rightarrow> (path \<rightharpoonup> content)" where
  "flush E [] fs = fs"
| "flush E (p # ps) fs = flush E ps (fs(p \<mapsto> flushed E p))"

definition context_close :: "env \<Rightarrow> nat \<Rightarrow> browser_context \<Rightarrow> unit io" where
  "context_close E k c w =
     (if context_close_ok E k
      then (Inr (), (emit (CloseContext c) w)
                      \<lparr>files := flush E c (files w), open_contexts := open_contexts w - 1\<rparr>)
      else (Inl ContextCloseFailed, emit (CloseContext c) w))"

definition newPage :: "env \<Rightarrow> unit io" where
  "newPage E w =
     (if newPage_ok E then (Inr (), emit NewPage w) else (Inl NewPageFailed, emit NewPage w))"

definition goto :: "env \<Rightarrow> nat \<Rightarrow> string \<Rightarrow> unit io" where
  "goto E i url w =
     (if goto_ok E i url then (Inr (), emit (Goto url) w) else (Inl GotoFailed, emit (Goto url) w))"

definition waitForTimeout :: "env \<Rightarrow> nat \<Rightarrow> int \<Rightarrow> unit io" where
  "waitForTimeout E i ms w =
     (if waitForTimeout_ok E i then (Inr (), emit (WaitForTimeout ms) w)
      else (Inl WaitForTimeoutFailed, emit (WaitForTimeout ms) w))"

text \<open>Closing the browser ends its contexts without saving their recordings.\<close>

definition browser_close :: "env \<Rightarrow> unit io" where
  "browser_close E w =
     (if browser_close_ok E
      then (Inr (), (emit CloseBrowser w)\<lparr>browser_running := False, open_contexts := 0\<rparr>)
      else (Inl BrowserCloseFailed, emit CloseBrowser w))"

definition readFile :: "env \<Rightarrow> path \<Rightarrow> content io" where
  "readFile E p w =
     (case files w p of
        None \<Rightarrow> (Inl ReadFileFailed, emit (ReadFile p) w)
      | Some c \<Rightarrow> if readFile_ok E then (Inr c, emit (ReadFile p) w)
                  else (Inl ReadFileFailed, emit (ReadFile p) w))"

definition unlink :: "env \<Rightarrow> path \<Rightarrow> unit io" where
  "unlink E p w =
     (case files w p of
        None \<Rightarrow> (Inl UnlinkFailed, emit (Unlink p) w)
      | Some c \<Rightarrow> if unlink_ok E then (Inr (), (emit (Unlink p) w)\<lparr>files := (files w)(p := None)\<rparr>)
                  else (Inl UnlinkFailed, emit (Unlink p) w))"

definition JSON_parse :: "content \<Rightarrow> error + har" where
  "JSON_parse c = (case c of Garbage \<Rightarrow> Inl SyntaxError | HarJson h \<Rightarrow> Inr h)"

text \<open>\<^verbatim>\<open>`${Date.now()}`\<close>: the decimal digits of a millisecond count.\<close>

fun dec :: "nat \<Rightarrow> string" where
  "dec n = (if n < 10 then [char_of (48 + n)] else dec (n div 10) @ [char_of (48 + n mod 10)])"

declare dec.simps [simp del]

text \<open>A JavaScript number is falsy when it is absent or zero.\<close>

definition truthy :: "int option \<Rightarrow> bool" where
  "truthy m = (case m of None \<Rightarrow> False | Some n \<Rightarrow> n \<noteq> 0)"

subsection \<open>\<^verbatim>\<open>captureWithHar\<close>\<close>

text \<open>
  Lines 30 to 58: a first context recording to \<^verbatim>\<open>temp_har.har\<close>, routed to the block's own
  \<^verbatim>\<open>tempHarPath\<close> of line 46 and closed again, any exception ignored.
\<close>

definition tempHarPath0 :: "env \<Rightarrow> path" where
  "tempHarPath0 E = ''temp_'' @ dec (now E 0) @ ''.har''"

definition first_block :: "env \<Rightarrow> world \<Rightarrow> world" where
  "first_block E w =
     snd (andThen (newContext E 0 ''temp_har.har'' None) (\<lambda>context.
          andThen (routeFromHAR E context (tempHarPath0 E)) (\<lambda>context.
          context_close E 0 context)) w)"

text \<open>Line 61.\<close>

definition tempHarPath :: "env \<Rightarrow> path" where
  "tempHarPath E = ''temp_capture_'' @ dec (now E 1) @ ''.har''"

definition userAgent :: string where
  "userAgent = ''Mozilla/5.0 (Macintosh; Intel Mac OS X 10_15_7) AppleWebKit/537.36 (KHTML, like Gecko) Chrome/120.0.0.0 Safari/537.36''"

text \<open>Lines 76 to 85: the body of the loop for the target at position \<open>i\<close>.\<close>

definition visit :: "env \<Rightarrow> CaptureOptions \<Rightarrow> nat \<Rightarrow> string \<Rightarrow> nat \<times> world \<Rightarrow> nat \<times> world" where
  "visit E options i url s =
     (case s of (pagesVisited, w) \<Rightarrow>
        (case andThen (goto E i url) (\<lambda>_.
                if truthy (waitMs options) then waitForTimeout E i (the (waitMs options))
                else (\<lambda>w. (Inr (), w)))
              (emit (ConsoleLog (''Visting '' @ url @ ''...'')) w) of
           (Inr _, w') \<Rightarrow> (Suc pagesVisited, w')
         | (Inl e, w') \<Rightarrow> (pagesVisited, emit (ConsoleError (''Failed to load '' @ url @ '':'')) w')))"

fun visit_all :: "env \<Rightarrow> CaptureOptions \<Rightarrow> nat \<Rightarrow> string list \<Rightarrow> nat \<times> world \<Rightarrow> nat \<times> world" where
  "visit_all E options i [] s = s"
| "visit_all E options i (url # urls) s = visit_all E options (Suc i) urls (visit E options i url s)"

text \<open>
  Lines 103 to 105 and 108 to 110: \<^verbatim>\<open>cookies[cookie.name] = cookie.value\<close>, on the plain
  object \<^verbatim>\<open>{}\<close> of line 99. The own properties of that object are a map from names to
  values. Assigning to a name creates or overwrites the own property of that name, except
  for the name \<^verbatim>\<open>__proto__\<close>: that assignment goes to the setter the object inherits from
  \<^verbatim>\<open>Object.prototype\<close>, which ignores a value that is a string, so nothing is stored.
\<close>

definition assign :: "(string \<rightharpoonup> string) \<Rightarrow> string \<Rightarrow> string \<Rightarrow> (string \<rightharpoonup> string)" where
  "assign m k v = (if k = ''__proto__'' then m else m(k \<mapsto> v))"

fun put_cookies :: "cookie list \<Rightarrow> (string \<rightharpoonup> string) \<Rightarrow> (string \<rightharpoonup> string)" where
  "put_cookies [] m = m"
| "put_cookies (c # cs) m = put_cookies cs (assign m (cookie_name c) (cookie_value c))"

definition side_cookies :: "message option \<Rightarrow> (string \<rightharpoonup> string) \<Rightarrow> (string \<rightharpoonup> string)" where
  "side_cookies side m =
     (case side of None \<Rightarrow> m
      | Some msg \<Rightarrow> (case msg_cookies msg of None \<Rightarrow> m | Some cs \<Rightarrow> put_cookies cs m))"

fun entry_cookies :: "entry list \<Rightarrow> (string \<rightharpoonup> string) \<Rightarrow> (string \<rightharpoonup> string)" where
  "entry_cookies [] m = m"
| "entry_cookies (e # es) m = entry_cookies es (side_cookies (response e) (side_cookies (request e) m))"

text \<open>Lines 99 to 113.\<close>

definition extract_cookies :: "har \<Rightarrow> (string \<rightharpoonup> string)" where
  "extract_cookies harJson =
     (case log harJson of None \<Rightarrow> Map.empty
      | Some l \<Rightarrow> (case entries l of None \<Rightarrow> Map.empty | Some es \<Rightarrow> entry_cookies es Map.empty))"

text \<open>
  Lines 115 to 123. \<^verbatim>\<open>harJson.log.entries.length\<close> is not guarded: it throws a
  TypeError when \<^verbatim>\<open>log\<close> or \<^verbatim>\<open>entries\<close> is absent.
\<close>

definition build_result :: "nat \<Rightarrow> har \<Rightarrow> error + CaptureResult" where
  "build_result pagesVisited harJson =
     (case log harJson of None \<Rightarrow> Inl TypeError
      | Some l \<Rightarrow> (case entries l of None \<Rightarrow> Inl TypeError
          | Some es \<Rightarrow> Inr \<lparr>har = harJson, requestCount = length es, method = ''playwright-har'',
                            crawlResult = Some \<lparr>pagesCrawled = pagesVisited, openApiSource = None\<rparr>,
                            cookies = extract_cookies harJson\<rparr>))"

text \<open>
  The function itself. Line 92, the dynamic import of Node's own \<^verbatim>\<open>fs/promises\<close>, always
  resolves and is left out. The result is the value returned or the exception raised,
  with the world the function leaves behind.
\<close>

definition captureWithHar :: "env \<Rightarrow> string list \<Rightarrow> CaptureOptions \<Rightarrow> CaptureResult io" where
  "captureWithHar E urls options =
     andThen (launch E (headless options)) (\<lambda>browser w.
       (andThen (newContext E 1 (tempHarPath E) (Some userAgent)) (\<lambda>context.
        andThen (newPage E) (\<lambda>page w.
          (case visit_all E options 0 urls (0, w) of (pagesVisited, w') \<Rightarrow>
            (andThen (context_close E 1 context) (\<lambda>_.
             andThen (browser_close E) (\<lambda>_.
             andThen (readFile E (tempHarPath E)) (\<lambda>harContent.
             andThen (unlink E (tempHarPath E)) (\<lambda>_ w.
               (case JSON_parse harContent of
                  Inl e \<Rightarrow> (Inl e, w)
                | Inr harJson \<Rightarrow> (build_result pagesVisited harJson, w)))))))
            w'))))
       (first_block E w))"

section \<open>Vocabulary of the properties\<close>

subsection \<open>Reading the trace and the calls made\<close>

text \<open>
  The exchange records of a trace are the elements of \<^verbatim>\<open>log.entries\<close>, when the trace has
  them.
\<close>

definition exchange_records :: "har \<Rightarrow> entry list option" where
  "exchange_records h = (case log h of None \<Rightarrow> None | Some l \<Rightarrow> entries l)"

text \<open>
  The cookies of a trace in trace order: for each exchange record the request's cookies,
  then the response's. \<open>last_value n cs\<close> is the value of the last cookie named \<open>n\<close> in
  \<open>cs\<close>.
\<close>

definition side_list :: "message option \<Rightarrow> cookie list" where
  "side_list side =
     (case side of None \<Rightarrow> []
      | Some msg \<Rightarrow> (case msg_cookies msg of None \<Rightarrow> [] | Some cs \<Rightarrow> cs))"

fun cookie_sequence :: "entry list \<Rightarrow> cookie list" where
  "cookie_sequence [] = []"
| "cookie_sequence (e # es) = side_list (request e) @ side_list (response e) @ cookie_sequence es"

fun last_value :: "string \<Rightarrow> cookie list \<Rightarrow> string option" where
  "last_value n [] = None"
| "last_value n (c # cs) =
     (case last_value n cs of
        Some v \<Rightarrow> Some v
      | None \<Rightarrow> if cookie_name c = n then Some (cookie_value c) else None)"

text \<open>
  The target at position \<open>i\<close> loads when the body of the \<^verbatim>\<open>try\<close> of lines 76 to 82 runs
  to its end: \<^verbatim>\<open>page.goto\<close> resolves and so does the pause, when one is asked for. Any
  exception there is what line 84 reports as \<^verbatim>\<open>Failed to load\<close>. \<open>loaded\<close> counts the
  targets that load.
\<close>

definition loads :: "env \<Rightarrow> CaptureOptions \<Rightarrow> nat \<Rightarrow> string \<Rightarrow> bool" where
  "loads E options i url =
     (goto_ok E i url \<and> (if truthy (waitMs options) then waitForTimeout_ok E i else True))"

fun loaded :: "env \<Rightarrow> CaptureOptions \<Rightarrow> nat \<Rightarrow> string list \<Rightarrow> nat" where
  "loaded E options i [] = 0"
| "loaded E options i (url # urls) =
     (if loads E options i url then 1 else 0) + loaded E options (Suc i) urls"

text \<open>
  Projections of the list of calls: the addresses navigated to, the pauses taken, the
  teardown calls and the recording destinations handed to Playwright.
\<close>

fun navigations :: "event list \<Rightarrow> string list" where
  "navigations [] = []"
| "navigations (Goto url # evs) = url # navigations evs"
| "navigations (ev # evs) = navigations evs"

fun pauses :: "event list \<Rightarrow> int list" where
  "pauses [] = []"
| "pauses (WaitForTimeout ms # evs) = ms # pauses evs"
| "pauses (ev # evs) = pauses evs"

fun teardown :: "event list \<Rightarrow> event list" where
  "teardown [] = []"
| "teardown (CloseContext c # evs) = CloseContext c # teardown evs"
| "teardown (CloseBrowser # evs) = CloseBrowser # teardown evs"
| "teardown (ev # evs) = teardown evs"

fun destinations :: "event list \<Rightarrow> path list" where
  "destinations [] = []"
| "destinations (NewContext p ua # evs) = p # destinations evs"
| "destinations (RouteFromHAR p # evs) = p # destinations evs"
| "destinations (ev # evs) = destinations evs"

text \<open>
  The first call of the function that rejects, if any, outside the first block (whose
  exceptions are ignored) and the loop (whose exceptions are caught).
\<close>

definition fatal :: "env \<Rightarrow> error option" where
  "fatal E =
     (if \<not> launch_ok E then Some LaunchFailed
      else if \<not> newContext_ok E 1 then Some NewContextFailed
      else if \<not> newPage_ok E then Some NewPageFailed
      else if \<not> context_close_ok E 1 then Some ContextCloseFailed
      else if \<not> browser_close_ok E then Some BrowserCloseFailed
      else if \<not> readFile_ok E then Some ReadFileFailed
      else if \<not> unlink_ok E then Some UnlinkFailed
      else (case flushed E (tempHarPath E) of
              Garbage \<Rightarrow> Some SyntaxError
            | HarJson h \<Rightarrow> (case log h of None \<Rightarrow> Some TypeError
                | Some l \<Rightarrow> (case entries l of None \<Rightarrow> Some TypeError | Some es \<Rightarrow> None))))"

subsection \<open>Concrete sessions\<close>

text \<open>
  A trace of three exchange records, a session in which every call succeeds, and
  variations of it.
\<close>

definition sample_har :: har where
  "sample_har = Har (Some (Log (Some
     [Entry (Some (Message (Some [Cookie ''sid'' ''a1''])))
            (Some (Message (Some [Cookie ''sid'' ''b2'', Cookie ''lang'' ''en'']))),
      Entry (Some (Message None)) None,
      Entry (Some (Message (Some [Cookie ''lang'' ''fr''])))
            (Some (Message (Some [])))])))"

definition happy :: env where
  "happy = \<lparr>launch_ok = True, newContext_ok = (\<lambda>k. True), routeFromHAR_ok = True,
             context_close_ok = (\<lambda>k. True), now = (\<lambda>k. 1762178400000 + k), newPage_ok = True,
             goto_ok = (\<lambda>i url. True), waitForTimeout_ok = (\<lambda>i. True),
             browser_close_ok = True, flushed = (\<lambda>p. HarJson sample_har),
             readFile_ok = True, unlink_ok = True\<rparr>"

definition second_fails :: env where
  "second_fails = happy\<lparr>goto_ok := (\<lambda>i url. i = 0)\<rparr>"

definition browser_close_fails :: env where
  "browser_close_fails = happy\<lparr>browser_close_ok := False\<rparr>"

definition read_fails :: env where
  "read_fails = happy\<lparr>readFile_ok := False\<rparr>"

definition no_context :: env where
  "no_context = happy\<lparr>newContext_ok := (\<lambda>k. False)\<rparr>"

definition nothing_loads :: env where
  "nothing_loads = happy\<lparr>goto_ok := (\<lambda>i url. False),
                            flushed := (\<lambda>p. HarJson (Har (Some (Log (Some [])))))\<rparr>"

definition w0 :: world where
  "w0 = \<lparr>files = Map.empty, browser_running = False, open_contexts = 0, events = []\<rparr>"

definition opts0 :: CaptureOptions where
  "opts0 = \<lparr>waitMs = None, headless = Some True, crawl = None, crawlOptions = None,
             userDataDir = None\<rparr>"

definition two_urls :: "string list" where
  "two_urls = [''https://example.com'', ''https://unreachable.invalid'']"

definition sample_result :: CaptureResult where
  "sample_result = \<lparr>har = sample_har, requestCount = 3, method = ''playwright-har'',
       crawlResult = Some \<lparr>pagesCrawled = 1, openApiSource = None\<rparr>,
       cookies = [''sid'' \<mapsto> ''b2'', ''lang'' \<mapsto> ''fr'']\<rparr>"

definition opts_profile :: CaptureOptions where
  "opts_profile = \<lparr>waitMs = None, headless = Some True, crawl = Some True,
       crawlOptions = Some \<lparr>maxPages = 10, discoverOpenApi = True\<rparr>,
       userDataDir = Some ''/tmp/profile''\<rparr>"

text \<open>
  A session in which every \<^verbatim>\<open>page.goto\<close> resolves and the pause after the first target
  rejects, with options that ask for a pause.
\<close>

definition pause_fails :: env where
  "pause_fails = happy\<lparr>waitForTimeout_ok := (\<lambda>i. i \<noteq> 0)\<rparr>"

definition opts_wait :: CaptureOptions where
  "opts_wait = opts0\<lparr>waitMs := Some 250\<rparr>"

text \<open>
  A trace of one exchange record whose request carries a cookie named \<^verbatim>\<open>__proto__\<close> and a
  cookie named \<^verbatim>\<open>a\<close>, and whose response sets \<^verbatim>\<open>__proto__\<close> again; and a session in which
  every call succeeds and the recorder leaves that trace.
\<close>

definition proto_har :: har where
  "proto_har = Har (Some (Log (Some
     [Entry (Some (Message (Some [Cookie ''__proto__'' ''x'', Cookie ''a'' ''1''])))
            (Some (Message (Some [Cookie ''__proto__'' ''y''])))])))"

definition proto_session :: env where
  "proto_session = happy\<lparr>flushed := (\<lambda>p. HarJson proto_har)\<rparr>"

section \<open>Lemmas\<close>

subsection \<open>Cookie aggregation\<close>

lemma put_cookies_append: "put_cookies (xs @ ys) m = put_cookies ys (put_cookies xs m)"
  by (induction xs arbitrary: m) simp_all

lemma side_cookies_list: "side_cookies side m = put_cookies (side_list side) m"
  by (simp add: side_cookies_def side_list_def split: option.splits)

lemma cookie_sequence_append: "cookie_sequence (xs @ ys) = cookie_sequence xs @ cookie_sequence ys"
  by (induction xs) simp_all

lemma entry_cookies_sequence: "entry_cookies es m = put_cookies (cookie_sequence es) m"
  by (induction es arbitrary: m) (simp_all add: side_cookies_list put_cookies_append)

lemma put_cookies_last:
  "put_cookies cs m n =
     (if n = ''__proto__'' then m n
      else case last_value n cs of Some v \<Rightarrow> Some v | None \<Rightarrow> m n)"
  by (induction cs arbitrary: m) (auto simp: assign_def split: option.splits)

lemma last_value_append:
  "last_value n (xs @ ys) = (case last_value n ys of Some v \<Rightarrow> Some v | None \<Rightarrow> last_value n xs)"
  by (induction xs) (auto split: option.splits)

lemma put_cookies_idem: "put_cookies cs (put_cookies cs m) = put_cookies cs m"
  by (rule ext) (simp add: put_cookies_last split: option.splits)

text \<open>
  What the loops of lines 101 to 112 do: they store the cookies of the trace in trace
  order; a name other than \<^verbatim>\<open>__proto__\<close> ends with the value of its last cookie, the name
  \<^verbatim>\<open>__proto__\<close> is never stored, and merging the same trace again changes nothing.
\<close>

lemma entry_cookies_last:
  "entry_cookies es m n =
     (if n = ''__proto__'' then m n
      else case last_value n (cookie_sequence es) of Some v \<Rightarrow> Some v | None \<Rightarrow> m n)"
  by (simp add: entry_cookies_sequence put_cookies_last)

lemma entry_cookies_idem: "entry_cookies es (entry_cookies es m) = entry_cookies es m"
  by (simp add: entry_cookies_sequence put_cookies_idem)

lemma extract_cookies_sequence:
  "extract_cookies (Har (Some (Log (Some es)))) = put_cookies (cookie_sequence es) Map.empty"
  by (simp add: extract_cookies_def entry_cookies_sequence)

subsection \<open>Projections of the calls\<close>

lemma navigations_append: "navigations (xs @ ys) = navigations xs @ navigations ys"
  by (induction xs rule: navigations.induct) simp_all

lemma pauses_append: "pauses (xs @ ys) = pauses xs @ pauses ys"
  by (induction xs rule: pauses.induct) simp_all

lemma teardown_append: "teardown (xs @ ys) = teardown xs @ teardown ys"
  by (induction xs rule: teardown.induct) simp_all

lemma destinations_append: "destinations (xs @ ys) = destinations xs @ destinations ys"
  by (induction xs rule: destinations.induct) simp_all

subsection \<open>The loop over the targets\<close>

text \<open>
  What one pass of the loop, and then the whole loop, does to the counter and to each
  part of the world.
\<close>

lemmas prim_defs = andThen_def emit_def launch_def newContext_def routeFromHAR_def
  context_close_def newPage_def goto_def waitForTimeout_def browser_close_def readFile_def
  unlink_def

lemma visit_fst: "fst (visit E options i url s) = fst s + (if loads E options i url then 1 else 0)"
  by (cases s) (simp add: visit_def loads_def prim_defs)

lemma visit_files: "files (snd (visit E options i url s)) = files (snd s)"
  by (cases s) (simp add: visit_def prim_defs)

lemma visit_browser: "browser_running (snd (visit E options i url s)) = browser_running (snd s)"
  by (cases s) (simp add: visit_def prim_defs)

lemma visit_navigations:
  "navigations (events (snd (visit E options i url s))) = navigations (events (snd s)) @ [url]"
  by (cases s) (simp add: visit_def prim_defs navigations_append)

lemma visit_teardown:
  "teardown (events (snd (visit E options i url s))) = teardown (events (snd s))"
  by (cases s) (simp add: visit_def prim_defs teardown_append)

lemma visit_pauses:
  "\<not> truthy (waitMs options) \<Longrightarrow>
     pauses (events (snd (visit E options i url s))) = pauses (events (snd s))"
  by (cases s) (simp add: visit_def prim_defs pauses_append)

lemma visit_destinations:
  "destinations (events (snd (visit E options i url s))) = destinations (events (snd s))"
  by (cases s) (simp add: visit_def prim_defs destinations_append)

lemma visit_options:
  "waitMs options' = waitMs options \<Longrightarrow> visit E options' i url s = visit E options i url s"
  by (simp add: visit_def)

lemma visit_zero_wait:
  "visit E (options\<lparr>waitMs := Some 0\<rparr>) i url s = visit E (options\<lparr>waitMs := None\<rparr>) i url s"
  by (simp add: visit_def truthy_def)

lemma visit_all_fst: "fst (visit_all E options i urls s) = fst s + loaded E options i urls"
  by (induction urls arbitrary: i s) (simp_all add: visit_fst)

lemma visit_all_files: "files (snd (visit_all E options i urls s)) = files (snd s)"
  by (induction urls arbitrary: i s) (simp_all add: visit_files)

lemma visit_all_browser:
  "browser_running (snd (visit_all E options i urls s)) = browser_running (snd s)"
  by (induction urls arbitrary: i s) (simp_all add: visit_browser)

lemma visit_all_navigations:
  "navigations (events (snd (visit_all E options i urls s))) = navigations (events (snd s)) @ urls"
  by (induction urls arbitrary: i s) (simp_all add: visit_navigations)

lemma visit_all_teardown:
  "teardown (events (snd (visit_all E options i urls s))) = teardown (events (snd s))"
  by (induction urls arbitrary: i s) (simp_all add: visit_teardown)

lemma visit_all_pauses:
  "\<not> truthy (waitMs options) \<Longrightarrow>
     pauses (events (snd (visit_all E options i urls s))) = pauses (events (snd s))"
  by (induction urls arbitrary: i s) (simp_all add: visit_pauses)

lemma visit_all_destinations:
  "destinations (events (snd (visit_all E options i urls s))) = destinations (events (snd s))"
  by (induction urls arbitrary: i s) (simp_all add: visit_destinations)

lemma visit_all_options:
  assumes "waitMs options' = waitMs options"
  shows "visit_all E options' i urls s = visit_all E options i urls s"
proof (induction urls arbitrary: i s)
  case Nil
  show ?case by simp
next
  case (Cons url urls)
  show ?case by (simp add: visit_options [OF assms] Cons.IH)
qed

lemma visit_all_zero_wait:
  "visit_all E (options\<lparr>waitMs := Some 0\<rparr>) i urls s
     = visit_all E (options\<lparr>waitMs := None\<rparr>) i urls s"
  by (induction urls arbitrary: i s) (simp_all add: visit_zero_wait)

lemma loaded_le: "loaded E options i urls \<le> length urls"
proof (induction urls arbitrary: i)
  case Nil
  show ?case by simp
next
  case (Cons url urls)
  from Cons [of "Suc i"] show ?case by simp
qed

lemma loaded_all:
  "(loaded E options i urls = length urls) = (\<forall>j < length urls. loads E options (i + j) (urls ! j))"
proof (induction urls arbitrary: i)
  case Nil
  show ?case by simp
next
  case (Cons url urls)
  have le: "loaded E options (Suc i) urls \<le> length urls" by (rule loaded_le)
  show ?case
  proof (cases "loads E options i url")
    case True
    then show ?thesis using Cons.IH [of "Suc i"]
      by (auto simp: less_Suc_eq_0_disj)
  next
    case False
    then show ?thesis using le by auto
  qed
qed

subsection \<open>The digits of the clock and the destinations\<close>

text \<open>
  The decimal rendering is injective and starts with a digit, so the destination of the
  capture determines the millisecond and differs from both destinations of the first
  block.
\<close>

lemma dec_nonempty: "dec n \<noteq> []"
  by (subst dec.simps) simp

lemma dec_last: "last (dec n) = char_of (48 + n mod 10)"
  by (subst dec.simps) simp

lemma dec_butlast: "butlast (dec n) = (if n < 10 then [] else dec (n div 10))"
  by (subst dec.simps) simp

lemma digit_inj:
  assumes "a < 10" "b < 10" "(char_of (48 + a) :: char) = char_of (48 + b)"
  shows "a = (b::nat)"
proof -
  from assms(3) have "(of_char (char_of (48 + a) :: char) :: nat) = of_char (char_of (48 + b) :: char)"
    by simp
  then have "(48 + a) mod 256 = (48 + b) mod 256" by simp
  with assms(1,2) show ?thesis by simp
qed

lemma dec_inj: "dec n = dec m \<Longrightarrow> n = m"
proof (induction n arbitrary: m rule: dec.induct)
  case (1 n)
  from "1.prems" have l: "last (dec n) = last (dec m)" and b: "butlast (dec n) = butlast (dec m)"
    by simp_all
  from l have md: "n mod 10 = m mod 10"
    using digit_inj [of "n mod 10" "m mod 10"] by (simp add: dec_last)
  show ?case
  proof (cases "n < 10")
    case True
    with b have "m < 10" using dec_nonempty [of "m div 10"]
      by (auto simp: dec_butlast split: if_splits)
    with True md show ?thesis by simp
  next
    case False
    with b have m: "\<not> m < 10" and e: "dec (n div 10) = dec (m div 10)"
      using dec_nonempty [of "n div 10"] by (auto simp: dec_butlast split: if_splits)
    from "1.IH" [OF False e] have "n div 10 = m div 10" .
    with md show ?thesis by (metis div_mult_mod_eq)
  qed
qed

lemma dec_hd: "\<exists>k::nat. k < 10 \<and> hd (dec n) = char_of (48 + k)"
proof (induction n rule: dec.induct)
  case (1 n)
  show ?case
  proof (cases "n < 10")
    case True
    then show ?thesis by (subst dec.simps) auto
  next
    case False
    from "1.IH" [OF False] obtain k :: nat
      where "k < 10" "hd (dec (n div 10)) = char_of (48 + k)"
      by blast
    with False show ?thesis by (subst dec.simps) (auto simp: dec_nonempty)
  qed
qed

lemma dec_not_capture: "dec a @ xs \<noteq> CHR ''c'' # ys"
proof
  assume "dec a @ xs = CHR ''c'' # ys"
  then have "hd (dec a @ xs) = CHR ''c''" by simp
  then have h: "hd (dec a) = CHR ''c''" by (simp add: dec_nonempty)
  from dec_hd [of a] obtain k :: nat where k: "k < 10" "hd (dec a) = char_of (48 + k)" by blast
  with h have "(of_char (char_of (48 + k) :: char) :: nat) = of_char (CHR ''c'')" by simp
  with k(1) show False by simp
qed

lemma first_destination_differs: "tempHarPath0 E \<noteq> tempHarPath E'"
proof
  assume "tempHarPath0 E = tempHarPath E'"
  then have "dec (now E 0) @ ''.har'' = CHR ''c'' # (''apture_'' @ dec (now E' 1) @ ''.har'')"
    unfolding tempHarPath_def tempHarPath0_def by simp
  with dec_not_capture show False by blast
qed

lemma tempHarPath_not_first [simp]:
  "tempHarPath E \<noteq> ''temp_har.har''" "''temp_har.har'' \<noteq> tempHarPath E"
  "tempHarPath E \<noteq> tempHarPath0 E'" "tempHarPath0 E' \<noteq> tempHarPath E"
  using first_destination_differs [of E' E] by (auto simp: tempHarPath_def)

lemma tempHarPath_inj: "(tempHarPath E = tempHarPath E') = (now E 1 = now E' 1)"
  by (auto simp: tempHarPath_def dest: dec_inj)

subsection \<open>The first block\<close>

lemma first_block_files [simp]:
  "files (first_block E w) (tempHarPath E) = files w (tempHarPath E)"
  by (simp add: first_block_def prim_defs)

lemma first_block_browser [simp]: "browser_running (first_block E w) = browser_running w"
  by (simp add: first_block_def prim_defs)

lemma first_block_navigations [simp]:
  "navigations (events (first_block E w)) = navigations (events w)"
  by (simp add: first_block_def prim_defs navigations_append)

lemma first_block_pauses [simp]: "pauses (events (first_block E w)) = pauses (events w)"
  by (simp add: first_block_def prim_defs pauses_append)

lemma first_block_leaves_file:
  "newContext_ok E 0 \<Longrightarrow> routeFromHAR_ok E \<Longrightarrow> context_close_ok E 0 \<Longrightarrow>
     files (first_block E w) ''temp_har.har'' = Some (flushed E ''temp_har.har'')"
  by (auto simp: first_block_def prim_defs)

subsection \<open>The whole function\<close>

text \<open>
  The outcome of the function is decided by the environment alone: the first fatal call,
  or the result built from the finalized trace and the number of targets that loaded.
  The other lemmas read one part of the world the function leaves behind.
\<close>

lemmas capture_defs = captureWithHar_def prim_defs case_prod_beta JSON_parse_def
  visit_all_files visit_all_browser

lemma captureWithHar_fst:
  "fst (captureWithHar E urls options w) =
     (case fatal E of
        Some e \<Rightarrow> Inl e
      | None \<Rightarrow> build_result (loaded E options 0 urls) (case flushed E (tempHarPath E) of HarJson h \<Rightarrow> h))"
  apply (simp add: captureWithHar_def fatal_def prim_defs case_prod_beta JSON_parse_def
      visit_all_files visit_all_fst build_result_def
      split: content.splits option.splits)
  done

lemma captureWithHar_raises:
  "(fst (captureWithHar E urls options w) = Inl e) = (fatal E = Some e)"
  by (auto simp: captureWithHar_fst fatal_def build_result_def split: content.splits option.splits)

lemma captureWithHar_returns:
  "fst (captureWithHar E urls options w) = Inr r \<Longrightarrow> fatal E = None"
  by (cases "fatal E") (simp_all add: captureWithHar_fst)

lemma fatal_navigation [simp]:
  "fatal (E\<lparr>goto_ok := g, waitForTimeout_ok := t\<rparr>) = fatal E"
  by (simp add: fatal_def tempHarPath_def)

lemma fatal_None:
  "(fatal E = None) =
     (launch_ok E \<and> newContext_ok E 1 \<and> newPage_ok E \<and> context_close_ok E 1
      \<and> browser_close_ok E \<and> readFile_ok E \<and> unlink_ok E
      \<and> (case flushed E (tempHarPath E) of Garbage \<Rightarrow> False
           | HarJson h \<Rightarrow> exchange_records h \<noteq> None))"
  by (auto simp: fatal_def exchange_records_def split: content.splits option.splits)

lemma captureWithHar_isl: "isl (fst (captureWithHar E urls options w)) = (fatal E \<noteq> None)"
  by (cases "fatal E") (auto simp: captureWithHar_fst fatal_None build_result_def
      exchange_records_def split: content.splits option.splits)

lemma captureWithHar_files:
  "files (snd (captureWithHar E urls options w)) (tempHarPath E) =
     (if \<not> launch_ok E \<or> \<not> newContext_ok E 1 \<or> \<not> newPage_ok E \<or> \<not> context_close_ok E 1
      then files w (tempHarPath E)
      else if \<not> browser_close_ok E \<or> \<not> readFile_ok E \<or> \<not> unlink_ok E
      then Some (flushed E (tempHarPath E))
      else None)"
  by (simp add: capture_defs split: content.splits)

lemma captureWithHar_first_file:
  "launch_ok E \<Longrightarrow> newContext_ok E 0 \<Longrightarrow> routeFromHAR_ok E \<Longrightarrow> context_close_ok E 0 \<Longrightarrow>
     files (snd (captureWithHar E urls options w)) ''temp_har.har'' = Some (flushed E ''temp_har.har'')"
  by (simp add: capture_defs first_block_leaves_file split: content.splits)

lemma captureWithHar_browser:
  "browser_running (snd (captureWithHar E urls options w)) =
     (if \<not> launch_ok E then browser_running w
      else \<not> newContext_ok E 1 \<or> \<not> newPage_ok E \<or> \<not> context_close_ok E 1 \<or> \<not> browser_close_ok E)"
  by (simp add: capture_defs split: content.splits)

lemma captureWithHar_navigations:
  "launch_ok E \<Longrightarrow> newContext_ok E 1 \<Longrightarrow> newPage_ok E \<Longrightarrow>
     navigations (events (snd (captureWithHar E urls options w))) = navigations (events w) @ urls"
  by (simp add: capture_defs navigations_append visit_all_navigations split: content.splits)

lemma captureWithHar_pauses:
  "\<not> truthy (waitMs options) \<Longrightarrow>
     pauses (events (snd (captureWithHar E urls options w))) = pauses (events w)"
  by (simp add: capture_defs pauses_append visit_all_pauses split: content.splits)

lemma captureWithHar_teardown:
  "launch_ok E \<Longrightarrow> newContext_ok E 1 \<Longrightarrow> newPage_ok E \<Longrightarrow> context_close_ok E 1 \<Longrightarrow>
     teardown (events (snd (captureWithHar E urls options w))) =
       teardown (events (first_block E (snd (launch E (headless options) w))))
         @ [CloseContext [tempHarPath E], CloseBrowser]"
  by (simp add: capture_defs teardown_append visit_all_teardown split: content.splits)

lemma captureWithHar_teardown_none:
  "launch_ok E \<Longrightarrow> \<not> newContext_ok E 0 \<Longrightarrow> \<not> newContext_ok E 1 \<Longrightarrow>
     teardown (events (snd (captureWithHar E urls options w))) = teardown (events w)"
  by (simp add: capture_defs first_block_def teardown_append)

lemma captureWithHar_destinations:
  "launch_ok E \<Longrightarrow>
     destinations (events (snd (captureWithHar E urls options w))) =
       destinations (events (first_block E (snd (launch E (headless options) w)))) @ [tempHarPath E]"
  by (simp add: capture_defs destinations_append visit_all_destinations split: content.splits)

lemma captureWithHar_destinations_all:
  "launch_ok E \<Longrightarrow> newContext_ok E 0 \<Longrightarrow>
     destinations (events (snd (captureWithHar E urls options w))) =
       destinations (events w) @ [''temp_har.har'', tempHarPath0 E, tempHarPath E]"
  by (simp add: captureWithHar_destinations)
     (simp add: first_block_def prim_defs destinations_append)

subsection \<open>The concrete sessions\<close>

lemmas env_defs = happy_def second_fails_def browser_close_fails_def no_context_def
  nothing_loads_def read_fails_def

lemma digit_chars:
  "char_of (48::nat) = CHR ''0''" "char_of (49::nat) = CHR ''1''" "char_of (50::nat) = CHR ''2''"
  "char_of (51::nat) = CHR ''3''" "char_of (52::nat) = CHR ''4''" "char_of (53::nat) = CHR ''5''"
  "char_of (54::nat) = CHR ''6''" "char_of (55::nat) = CHR ''7''" "char_of (56::nat) = CHR ''8''"
  "char_of (57::nat) = CHR ''9''"
  by (simp_all add: char_of_def bit_0)

lemma tempHarPath_happy: "tempHarPath happy = ''temp_capture_1762178400001.har''"
  by (simp add: tempHarPath_def happy_def dec.simps digit_chars)

lemma tempHarPath0_happy: "tempHarPath0 happy = ''temp_1762178400000.har''"
  by (simp add: tempHarPath0_def happy_def dec.simps digit_chars)

lemma happy_flags:
  "launch_ok happy" "newContext_ok happy k" "routeFromHAR_ok happy" "context_close_ok happy k"
  "newPage_ok happy" "browser_close_ok happy" "readFile_ok happy" "unlink_ok happy"
  "flushed happy p = HarJson sample_har"
  by (simp_all add: happy_def)

lemma sample_run: "fst (captureWithHar second_fails two_urls opts0 w0) = Inr sample_result"
  by (simp add: captureWithHar_fst fatal_def env_defs tempHarPath_def sample_har_def
      build_result_def extract_cookies_def side_cookies_def assign_def loads_def two_urls_def
      sample_result_def)

lemma fatal_happy: "fatal happy = None"
  by (simp add: fatal_def happy_flags sample_har_def)

lemma fatal_browser_close_fails: "fatal browser_close_fails = Some BrowserCloseFailed"
  by (simp add: fatal_def browser_close_fails_def happy_def)

lemma fatal_read_fails: "fatal read_fails = Some ReadFileFailed"
  by (simp add: fatal_def read_fails_def happy_def)

lemma fatal_no_context: "fatal no_context = Some NewContextFailed"
  by (simp add: fatal_def no_context_def happy_def)

lemma fatal_nothing_loads: "fatal nothing_loads = None"
  by (simp add: fatal_def nothing_loads_def happy_def)

lemma pause_when_set:
  "pauses (events (snd (captureWithHar happy [''https://example.com''] (opts0\<lparr>waitMs := Some 500\<rparr>) w0)))
     = [500]"
  by (simp add: capture_defs first_block_def visit_def truthy_def happy_flags pauses_append
      opts0_def w0_def sample_har_def happy_def)

section \<open>The claims\<close>

text \<open>
  C1. Whenever \<^verbatim>\<open>captureWithHar\<close> returns a result, its \<^verbatim>\<open>requestCount\<close> is the number of
  exchange records of the trace it returns in \<^verbatim>\<open>har\<close>, whatever the targets and the options
  and whichever navigations failed.
\<close>

theorem requestCount_counts_entries:
  "fst (captureWithHar E urls options w) = Inr r \<Longrightarrow>
     map_option length (exchange_records (har r)) = Some (requestCount r)"
  by (auto simp: captureWithHar_fst exchange_records_def build_result_def
      split: option.splits content.splits)

theorem requestCount_counts_entries_witness:
  "fst (captureWithHar second_fails two_urls opts0 w0) = Inr sample_result
   \<and> map_option length (exchange_records (har sample_result)) = Some (requestCount sample_result)
   \<and> requestCount sample_result = 3"
  using sample_run requestCount_counts_entries [OF sample_run]
  by (simp add: sample_result_def)

text \<open>
  C2, as amended. When \<^verbatim>\<open>captureWithHar\<close> returns a result, or fails after line 94 (the
  trace is not JSON, or has no \<^verbatim>\<open>log.entries\<close>), the destination of the capture,
  \<^verbatim>\<open>temp_capture_<now>.har\<close>, is not on disk afterwards.
\<close>

theorem capture_destination_removed:
  "fst (captureWithHar E urls options w) = Inr r
   \<or> fst (captureWithHar E urls options w) = Inl SyntaxError
   \<or> fst (captureWithHar E urls options w) = Inl TypeError \<Longrightarrow>
     files (snd (captureWithHar E urls options w)) (tempHarPath E) = None"
proof -
  assume "fst (captureWithHar E urls options w) = Inr r
   \<or> fst (captureWithHar E urls options w) = Inl SyntaxError
   \<or> fst (captureWithHar E urls options w) = Inl TypeError"
  then have "fatal E = None \<or> fatal E = Some SyntaxError \<or> fatal E = Some TypeError"
    by (auto simp: captureWithHar_raises dest: captureWithHar_returns)
  then have "launch_ok E \<and> newContext_ok E 1 \<and> newPage_ok E \<and> context_close_ok E 1
      \<and> browser_close_ok E \<and> readFile_ok E \<and> unlink_ok E"
    by (auto simp: fatal_def split: if_splits)
  then show ?thesis by (simp add: captureWithHar_files)
qed

theorem capture_destination_removed_witness:
  "(fst (captureWithHar second_fails two_urls opts0 w0) = Inr sample_result
    \<or> fst (captureWithHar second_fails two_urls opts0 w0) = Inl SyntaxError
    \<or> fst (captureWithHar second_fails two_urls opts0 w0) = Inl TypeError)
   \<and> files (snd (captureWithHar second_fails two_urls opts0 w0)) (tempHarPath second_fails) = None"
  using sample_run capture_destination_removed [of second_fails two_urls opts0 w0 sample_result]
  by simp

text \<open>
  C2 as stated fails twice. A session in which every call succeeds returns and leaves
  \<^verbatim>\<open>temp_har.har\<close>, which the first block had Playwright record and nothing removes. A
  session whose trace is on disk but cannot be read fails at line 93, before the delete of
  line 94, and leaves the destination of the capture itself.
\<close>

theorem trace_destinations_left_behind:
  "\<not> isl (fst (captureWithHar happy [''https://example.com''] opts0 w0))
   \<and> files w0 ''temp_har.har'' = None
   \<and> files (snd (captureWithHar happy [''https://example.com''] opts0 w0)) ''temp_har.har''
       = Some (HarJson sample_har)
   \<and> fst (captureWithHar read_fails [''https://example.com''] opts0 w0) = Inl ReadFileFailed
   \<and> files w0 (tempHarPath read_fails) = None
   \<and> files (snd (captureWithHar read_fails [''https://example.com''] opts0 w0))
         (tempHarPath read_fails) = Some (HarJson sample_har)"
proof -
  have returns: "\<not> isl (fst (captureWithHar happy [''https://example.com''] opts0 w0))"
    by (simp add: captureWithHar_isl fatal_happy)
  have before: "files w0 ''temp_har.har'' = None" "files w0 (tempHarPath read_fails) = None"
    by (simp_all add: w0_def)
  have first: "files (snd (captureWithHar happy [''https://example.com''] opts0 w0))
      ''temp_har.har'' = Some (HarJson sample_har)"
    by (simp add: captureWithHar_first_file happy_flags)
  have raises: "fst (captureWithHar read_fails [''https://example.com''] opts0 w0)
      = Inl ReadFileFailed"
    by (simp add: captureWithHar_raises fatal_read_fails)
  have capture: "files (snd (captureWithHar read_fails [''https://example.com''] opts0 w0))
      (tempHarPath read_fails) = Some (HarJson sample_har)"
    by (simp add: captureWithHar_files read_fails_def happy_def)
  from returns before first raises capture show ?thesis by simp
qed

text \<open>
  C3, as amended. Once the browser is launched: when the capture's context and page are
  acquired and \<^verbatim>\<open>context.close()\<close> resolves, whatever the navigations did, the last two
  teardown calls are the close of the capture's context and then \<^verbatim>\<open>browser.close()\<close>, and
  the browser is left running only if that last call rejects; when acquiring the context
  or the page, or closing the context, rejects, the function leaves with the browser
  still running.
\<close>

theorem browser_teardown:
  "launch_ok E \<Longrightarrow>
     (if newContext_ok E 1 \<and> newPage_ok E \<and> context_close_ok E 1
      then (\<exists>pre. teardown (events (snd (captureWithHar E urls options w)))
                    = pre @ [CloseContext [tempHarPath E], CloseBrowser])
           \<and> browser_running (snd (captureWithHar E urls options w)) = (\<not> browser_close_ok E)
      else browser_running (snd (captureWithHar E urls options w)))"
  by (auto simp: captureWithHar_browser captureWithHar_teardown)

theorem browser_teardown_witness:
  "launch_ok nothing_loads
   \<and> take 2 (rev (teardown (events (snd (captureWithHar nothing_loads two_urls opts0 w0)))))
        = [CloseBrowser, CloseContext [tempHarPath nothing_loads]]
   \<and> \<not> browser_running (snd (captureWithHar nothing_loads two_urls opts0 w0))
   \<and> launch_ok no_context
   \<and> browser_running (snd (captureWithHar no_context [] opts0 w0))"
  using browser_teardown [of nothing_loads two_urls opts0 w0]
    browser_teardown [of no_context "[]" opts0 w0]
  by (auto simp: nothing_loads_def no_context_def happy_def)

text \<open>
  C3 as stated fails when no context can be created: the function raises at line 62, no
  teardown call has been made and the browser launched at line 26 is still running.
\<close>

theorem browser_left_running:
  "launch_ok no_context
   \<and> fst (captureWithHar no_context two_urls opts0 w0) = Inl NewContextFailed
   \<and> browser_running (snd (captureWithHar no_context two_urls opts0 w0))
   \<and> teardown (events (snd (captureWithHar no_context two_urls opts0 w0))) = []"
proof -
  have l: "launch_ok no_context" and n0: "\<not> newContext_ok no_context 0"
    and n1: "\<not> newContext_ok no_context 1"
    by (simp_all add: no_context_def happy_def)
  show ?thesis
    using l n1
    by (simp add: captureWithHar_raises fatal_no_context captureWithHar_browser
        captureWithHar_teardown_none [OF l n0 n1] w0_def)
qed

text \<open>
  C4, as amended. \<^verbatim>\<open>captureWithHar\<close> raises exactly when one of these rejects or throws:
  the launch, the acquisition of the capture's context or of its page, the close of that
  context or of the browser, reading the trace back, deleting it, parsing it, or reading
  \<^verbatim>\<open>log.entries.length\<close> of a trace that has no \<^verbatim>\<open>log.entries\<close>. Whether it raises does not
  depend on the outcome of any navigation or pause. Once the page is acquired every
  target is navigated to, in order, and a result that is returned carries the whole trace
  and counts the targets that loaded.
\<close>

theorem capture_raises_iff:
  "isl (fst (captureWithHar E urls options w)) =
     (\<not> launch_ok E \<or> \<not> newContext_ok E 1 \<or> \<not> newPage_ok E \<or> \<not> context_close_ok E 1
      \<or> \<not> browser_close_ok E \<or> \<not> readFile_ok E \<or> \<not> unlink_ok E
      \<or> (case flushed E (tempHarPath E) of Garbage \<Rightarrow> True
           | HarJson h \<Rightarrow> exchange_records h = None))
   \<and> isl (fst (captureWithHar (E\<lparr>goto_ok := g, waitForTimeout_ok := t\<rparr>) urls options w))
       = isl (fst (captureWithHar E urls options w))
   \<and> (launch_ok E \<and> newContext_ok E 1 \<and> newPage_ok E \<longrightarrow>
        navigations (events (snd (captureWithHar E urls options w))) = navigations (events w) @ urls)
   \<and> (\<forall>r. fst (captureWithHar E urls options w) = Inr r \<longrightarrow>
        crawlResult r = Some \<lparr>pagesCrawled = loaded E options 0 urls, openApiSource = None\<rparr>
        \<and> flushed E (tempHarPath E) = HarJson (har r))"
proof (intro conjI allI impI)
  show "isl (fst (captureWithHar E urls options w)) =
     (\<not> launch_ok E \<or> \<not> newContext_ok E 1 \<or> \<not> newPage_ok E \<or> \<not> context_close_ok E 1
      \<or> \<not> browser_close_ok E \<or> \<not> readFile_ok E \<or> \<not> unlink_ok E
      \<or> (case flushed E (tempHarPath E) of Garbage \<Rightarrow> True
           | HarJson h \<Rightarrow> exchange_records h = None))"
    by (auto simp: captureWithHar_isl fatal_None split: content.splits)
next
  show "isl (fst (captureWithHar (E\<lparr>goto_ok := g, waitForTimeout_ok := t\<rparr>) urls options w))
       = isl (fst (captureWithHar E urls options w))"
    by (simp add: captureWithHar_isl)
next
  assume "launch_ok E \<and> newContext_ok E 1 \<and> newPage_ok E"
  then show "navigations (events (snd (captureWithHar E urls options w)))
      = navigations (events w) @ urls"
    by (simp add: captureWithHar_navigations)
next
  fix r
  assume r: "fst (captureWithHar E urls options w) = Inr r"
  from captureWithHar_returns [OF r] have "fatal E = None" .
  with r show "crawlResult r = Some \<lparr>pagesCrawled = loaded E options 0 urls, openApiSource = None\<rparr>"
    by (auto simp: captureWithHar_fst build_result_def split: option.splits content.splits)
  from \<open>fatal E = None\<close> r show "flushed E (tempHarPath E) = HarJson (har r)"
    by (auto simp: captureWithHar_fst build_result_def fatal_None
        split: option.splits content.splits)
qed

theorem capture_raises_iff_witness:
  "\<not> isl (fst (captureWithHar second_fails two_urls opts0 w0))
   \<and> launch_ok second_fails \<and> newContext_ok second_fails 1 \<and> newPage_ok second_fails
   \<and> \<not> goto_ok second_fails 1 (two_urls ! 1)
   \<and> navigations (events (snd (captureWithHar second_fails two_urls opts0 w0))) = two_urls
   \<and> fst (captureWithHar second_fails two_urls opts0 w0) = Inr sample_result
   \<and> crawlResult sample_result = Some \<lparr>pagesCrawled = 1, openApiSource = None\<rparr>
   \<and> length two_urls = 2"
  using capture_raises_iff [where E = second_fails and urls = two_urls and options = opts0
      and w = w0 and g = "goto_ok second_fails" and t = "waitForTimeout_ok second_fails"]
    sample_run
  by (simp add: second_fails_def happy_def two_urls_def w0_def sample_result_def)

text \<open>
  C4 as stated fails when \<^verbatim>\<open>browser.close()\<close> rejects: the browser and both contexts were
  acquired, the finalized trace is on disk, readable and well formed, and the function
  raises all the same.
\<close>

theorem raises_without_acquisition_or_readback_failure:
  "launch_ok browser_close_fails
   \<and> newContext_ok browser_close_fails 0 \<and> newContext_ok browser_close_fails 1
   \<and> files (snd (captureWithHar browser_close_fails two_urls opts0 w0))
         (tempHarPath browser_close_fails) = Some (HarJson sample_har)
   \<and> readFile_ok browser_close_fails
   \<and> JSON_parse (HarJson sample_har) = Inr sample_har
   \<and> map_option length (exchange_records sample_har) = Some 3
   \<and> fst (captureWithHar browser_close_fails two_urls opts0 w0) = Inl BrowserCloseFailed"
  by (simp add: captureWithHar_raises fatal_browser_close_fails captureWithHar_files
      JSON_parse_def exchange_records_def)
     (simp add: browser_close_fails_def happy_def sample_har_def)

text \<open>
  C5, as amended. In a result that \<^verbatim>\<open>captureWithHar\<close> returns, \<^verbatim>\<open>crawlResult.pagesCrawled\<close>
  is the number of targets that loaded, where a target loads when its \<^verbatim>\<open>page.goto\<close>
  resolves and, if \<^verbatim>\<open>waitMs\<close> is truthy, the pause after it resolves too. The count is at
  most the number of targets, and equal to it exactly when every target loaded; when no
  pause is asked for or no pause fails, that is exactly when every \<^verbatim>\<open>page.goto\<close> resolved.
  Each target is navigated to once, in order: a failed one is not tried again.
\<close>

theorem visited_count:
  "fst (captureWithHar E urls options w) = Inr r \<Longrightarrow>
     (\<exists>c. crawlResult r = Some c
          \<and> pagesCrawled c = loaded E options 0 urls
          \<and> pagesCrawled c \<le> length urls
          \<and> (pagesCrawled c = length urls) = (\<forall>j<length urls. loads E options j (urls ! j))
          \<and> (\<not> truthy (waitMs options) \<or> (\<forall>j<length urls. waitForTimeout_ok E j) \<longrightarrow>
               (pagesCrawled c = length urls) = (\<forall>j<length urls. goto_ok E j (urls ! j))))
     \<and> navigations (events (snd (captureWithHar E urls options w))) = navigations (events w) @ urls"
proof -
  assume r: "fst (captureWithHar E urls options w) = Inr r"
  from captureWithHar_returns [OF r] have ok: "fatal E = None" .
  with r have c: "crawlResult r = Some \<lparr>pagesCrawled = loaded E options 0 urls, openApiSource = None\<rparr>"
    by (auto simp: captureWithHar_fst build_result_def split: option.splits content.splits)
  have all: "(loaded E options 0 urls = length urls) = (\<forall>j<length urls. loads E options j (urls ! j))"
    using loaded_all [of E options 0 urls] by simp
  have goto: "\<not> truthy (waitMs options) \<or> (\<forall>j<length urls. waitForTimeout_ok E j) \<longrightarrow>
      (\<forall>j<length urls. loads E options j (urls ! j)) = (\<forall>j<length urls. goto_ok E j (urls ! j))"
    by (auto simp: loads_def)
  from ok have "launch_ok E" "newContext_ok E 1" "newPage_ok E"
    by (simp_all add: fatal_None)
  then have nav: "navigations (events (snd (captureWithHar E urls options w)))
      = navigations (events w) @ urls"
    by (rule captureWithHar_navigations)
  from c all goto loaded_le [of E options 0 urls] nav show ?thesis by simp
qed

theorem visited_count_witness:
  "fst (captureWithHar second_fails two_urls opts0 w0) = Inr sample_result
   \<and> map_option pagesCrawled (crawlResult sample_result) = Some 1
   \<and> length two_urls = 2
   \<and> \<not> truthy (waitMs opts0)
   \<and> goto_ok second_fails 0 (two_urls ! 0)
   \<and> \<not> goto_ok second_fails 1 (two_urls ! 1)
   \<and> navigations (events (snd (captureWithHar second_fails two_urls opts0 w0))) = two_urls"
  using sample_run visited_count [OF sample_run]
  by (auto simp: sample_result_def two_urls_def loads_def second_fails_def happy_def w0_def
      opts0_def truthy_def)

text \<open>
  C5 as stated fails when a pause rejects: every navigation succeeds, the pause after the
  first of two targets rejects inside the same \<^verbatim>\<open>try\<close>, and the function returns with one
  page counted.
\<close>

theorem pause_failure_lowers_count:
  "length two_urls = 2
   \<and> goto_ok pause_fails 0 (two_urls ! 0) \<and> goto_ok pause_fails 1 (two_urls ! 1)
   \<and> \<not> isl (fst (captureWithHar pause_fails two_urls opts_wait w0))
   \<and> map_option pagesCrawled
         (crawlResult (projr (fst (captureWithHar pause_fails two_urls opts_wait w0)))) = Some 1
   \<and> navigations (events (snd (captureWithHar pause_fails two_urls opts_wait w0))) = two_urls"
proof -
  have ok: "fatal pause_fails = None"
    by (simp add: fatal_def pause_fails_def happy_def sample_har_def)
  have flags: "launch_ok pause_fails" "newContext_ok pause_fails 1" "newPage_ok pause_fails"
    "goto_ok pause_fails 0 (two_urls ! 0)" "goto_ok pause_fails 1 (two_urls ! 1)"
    by (simp_all add: pause_fails_def happy_def)
  have count: "loaded pause_fails opts_wait 0 two_urls = 1"
    by (simp add: two_urls_def loads_def truthy_def opts_wait_def opts0_def pause_fails_def
        happy_def)
  have trace: "flushed pause_fails (tempHarPath pause_fails) = HarJson sample_har"
    by (simp add: pause_fails_def happy_def)
  have pages: "map_option pagesCrawled
      (crawlResult (projr (fst (captureWithHar pause_fails two_urls opts_wait w0)))) = Some 1"
    by (simp add: captureWithHar_fst ok count trace build_result_def sample_har_def)
  have nav: "navigations (events (snd (captureWithHar pause_fails two_urls opts_wait w0)))
      = two_urls"
    using captureWithHar_navigations [OF flags(1,2,3), of two_urls opts_wait w0]
    by (simp add: w0_def)
  from flags pages nav show ?thesis
    by (simp add: captureWithHar_isl ok) (simp add: two_urls_def)
qed

text \<open>
  C6. Cookie aggregation is to merge the cookies of the trace, in trace order, into one
  map from names to values in which the last value of a name wins. The code does not do
  that for the name \<^verbatim>\<open>__proto__\<close>. On the trace whose only exchange record has the request
  cookies \<^verbatim>\<open>__proto__=x\<close> and \<^verbatim>\<open>a=1\<close> and the response cookie \<^verbatim>\<open>__proto__=y\<close>, the last
  value of \<^verbatim>\<open>__proto__\<close> in trace order is \<^verbatim>\<open>y\<close>, the function returns with the cookie map
  holding \<^verbatim>\<open>a\<close> alone, and the response's cookie has replaced nothing.
\<close>

theorem proto_cookie_not_stored:
  "map_option cookie_sequence (exchange_records proto_har)
     = Some [Cookie ''__proto__'' ''x'', Cookie ''a'' ''1'', Cookie ''__proto__'' ''y'']
   \<and> last_value ''__proto__'' [Cookie ''__proto__'' ''x'', Cookie ''a'' ''1'', Cookie ''__proto__'' ''y'']
       = Some ''y''
   \<and> \<not> isl (fst (captureWithHar proto_session [''https://example.com''] opts0 w0))
   \<and> har (projr (fst (captureWithHar proto_session [''https://example.com''] opts0 w0)))
       = proto_har
   \<and> cookies (projr (fst (captureWithHar proto_session [''https://example.com''] opts0 w0)))
       = [''a'' \<mapsto> ''1'']
   \<and> cookies (projr (fst (captureWithHar proto_session [''https://example.com''] opts0 w0)))
         ''__proto__'' = None"
proof -
  have ok: "fatal proto_session = None"
    by (simp add: fatal_def proto_session_def happy_def proto_har_def)
  have trace: "flushed proto_session (tempHarPath proto_session) = HarJson proto_har"
    by (simp add: proto_session_def)
  have merged: "extract_cookies proto_har = [''a'' \<mapsto> ''1'']"
    by (simp add: proto_har_def extract_cookies_def side_cookies_def assign_def)
  have result: "fst (captureWithHar proto_session [''https://example.com''] opts0 w0)
      = build_result (loaded proto_session opts0 0 [''https://example.com'']) proto_har"
    by (simp add: captureWithHar_fst ok trace)
  have built: "build_result k proto_har
      = Inr \<lparr>har = proto_har, requestCount = 1, method = ''playwright-har'',
             crawlResult = Some \<lparr>pagesCrawled = k, openApiSource = None\<rparr>,
             cookies = [''a'' \<mapsto> ''1'']\<rparr>" for k
    by (simp add: build_result_def proto_har_def extract_cookies_def side_cookies_def
        assign_def)
  have seq: "map_option cookie_sequence (exchange_records proto_har)
      = Some [Cookie ''__proto__'' ''x'', Cookie ''a'' ''1'', Cookie ''__proto__'' ''y'']"
    by (simp add: proto_har_def exchange_records_def side_list_def)
  from seq show ?thesis by (simp add: result built)
qed

text \<open>
  C7, as amended. The capture's context records to \<^verbatim>\<open>temp_capture_<now>.har\<close>, the last
  destination the function hands to Playwright: the captures of two sessions have the
  same destination exactly when the two sessions read the same millisecond at line 61.
\<close>

theorem capture_destination_distinct:
  "(tempHarPath E = tempHarPath E') = (now E 1 = now E' 1)
   \<and> (launch_ok E \<longrightarrow>
        last (destinations (events (snd (captureWithHar E urls options w)))) = tempHarPath E)"
  by (simp add: tempHarPath_inj captureWithHar_destinations)

theorem capture_destination_distinct_witness:
  "now happy 1 \<noteq> now (happy\<lparr>now := (\<lambda>k. 1762178400017 + k)\<rparr>) 1
   \<and> tempHarPath happy \<noteq> tempHarPath (happy\<lparr>now := (\<lambda>k. 1762178400017 + k)\<rparr>)
   \<and> launch_ok happy
   \<and> last (destinations (events (snd (captureWithHar happy two_urls opts0 w0))))
        = ''temp_capture_1762178400001.har''"
  using capture_destination_distinct [of happy "happy\<lparr>now := (\<lambda>k. 1762178400017 + k)\<rparr>"
      two_urls opts0 w0]
  by (simp add: happy_flags tempHarPath_happy) (simp add: happy_def)

text \<open>
  C7 as stated fails for two sessions that read the clock in the same millisecond: they
  differ (the second target loads in one and not in the other) and use the same three
  destinations.
\<close>

theorem destination_shared_by_two_sessions:
  "goto_ok happy 1 (two_urls ! 1) \<and> \<not> goto_ok second_fails 1 (two_urls ! 1)
   \<and> now happy 1 = now second_fails 1
   \<and> destinations (events (snd (captureWithHar happy two_urls opts0 w0)))
        = [''temp_har.har'', ''temp_1762178400000.har'', ''temp_capture_1762178400001.har'']
   \<and> destinations (events (snd (captureWithHar second_fails two_urls opts0 w0)))
        = [''temp_har.har'', ''temp_1762178400000.har'', ''temp_capture_1762178400001.har'']"
proof -
  have p: "tempHarPath second_fails = tempHarPath happy"
    "tempHarPath0 second_fails = tempHarPath0 happy"
    by (simp_all add: tempHarPath_def tempHarPath0_def second_fails_def)
  have f: "launch_ok second_fails" "newContext_ok second_fails 0"
    by (simp_all add: second_fails_def happy_def)
  show ?thesis
    by (simp add: captureWithHar_destinations_all happy_flags f p tempHarPath_happy
        tempHarPath0_happy)
       (simp add: second_fails_def happy_def w0_def)
qed

text \<open>
  C8. When the launch, the acquisition of the capture's context and page, the two closes,
  the read and the delete all succeed and the finalized trace has zero exchange records,
  \<^verbatim>\<open>captureWithHar\<close> returns a result, with that trace, \<^verbatim>\<open>requestCount\<close> 0 and no cookie.
\<close>

theorem empty_trace_result:
  assumes "launch_ok E" "newContext_ok E 1" "newPage_ok E" "context_close_ok E 1"
    "browser_close_ok E" "readFile_ok E" "unlink_ok E"
    "flushed E (tempHarPath E) = HarJson h" "exchange_records h = Some []"
  shows "\<exists>r. fst (captureWithHar E urls options w) = Inr r
            \<and> har r = h \<and> requestCount r = 0 \<and> cookies r = Map.empty"
proof -
  from assms have "fatal E = None" by (simp add: fatal_None)
  with assms(8,9) show ?thesis
    by (auto simp: captureWithHar_fst build_result_def extract_cookies_def exchange_records_def
        split: option.splits)
qed

theorem empty_trace_result_witness:
  "launch_ok nothing_loads \<and> newContext_ok nothing_loads 1 \<and> newPage_ok nothing_loads
   \<and> context_close_ok nothing_loads 1 \<and> browser_close_ok nothing_loads
   \<and> readFile_ok nothing_loads \<and> unlink_ok nothing_loads
   \<and> flushed nothing_loads (tempHarPath nothing_loads) = HarJson (Har (Some (Log (Some []))))
   \<and> exchange_records (Har (Some (Log (Some [])))) = Some []
   \<and> \<not> goto_ok nothing_loads 0 (two_urls ! 0) \<and> \<not> goto_ok nothing_loads 1 (two_urls ! 1)
   \<and> requestCount (projr (fst (captureWithHar nothing_loads two_urls opts0 w0))) = 0
   \<and> cookies (projr (fst (captureWithHar nothing_loads two_urls opts0 w0))) = Map.empty
   \<and> \<not> isl (fst (captureWithHar nothing_loads two_urls opts0 w0))"
proof -
  have f: "launch_ok nothing_loads" "newContext_ok nothing_loads 1" "newPage_ok nothing_loads"
    "context_close_ok nothing_loads 1" "browser_close_ok nothing_loads"
    "readFile_ok nothing_loads" "unlink_ok nothing_loads"
    "flushed nothing_loads (tempHarPath nothing_loads) = HarJson (Har (Some (Log (Some []))))"
    by (simp_all add: nothing_loads_def happy_def)
  have e: "exchange_records (Har (Some (Log (Some [])))) = Some []"
    by (simp add: exchange_records_def)
  have g: "\<not> goto_ok nothing_loads 0 (two_urls ! 0)" "\<not> goto_ok nothing_loads 1 (two_urls ! 1)"
    by (simp_all add: nothing_loads_def)
  from empty_trace_result [OF f e, of two_urls opts0 w0]
  obtain r where "fst (captureWithHar nothing_loads two_urls opts0 w0) = Inr r"
    "requestCount r = 0" "cookies r = Map.empty"
    by blast
  with f e g show ?thesis by simp
qed

text \<open>
  C9. Two option records with the same \<^verbatim>\<open>waitMs\<close> and the same \<^verbatim>\<open>headless\<close> give the same
  run of \<^verbatim>\<open>captureWithHar\<close> (the same outcome and the same world afterwards), whatever
  their \<^verbatim>\<open>crawl\<close>, \<^verbatim>\<open>crawlOptions\<close> and \<^verbatim>\<open>userDataDir\<close>.
\<close>

theorem unread_options:
  assumes "waitMs options' = waitMs options" "headless options' = headless options"
  shows "captureWithHar E urls options' = captureWithHar E urls options"
  by (simp add: captureWithHar_def visit_all_options [OF assms(1)] assms(2))

theorem unread_options_witness:
  "waitMs opts_profile = waitMs opts0 \<and> headless opts_profile = headless opts0
   \<and> userDataDir opts_profile \<noteq> userDataDir opts0 \<and> crawl opts_profile \<noteq> crawl opts0
   \<and> crawlOptions opts_profile \<noteq> crawlOptions opts0
   \<and> captureWithHar second_fails two_urls opts_profile = captureWithHar second_fails two_urls opts0"
  using unread_options [of opts_profile opts0 second_fails two_urls]
  by (simp add: opts_profile_def opts0_def)

text \<open>
  C10. With \<^verbatim>\<open>waitMs\<close> 0 the function runs as with \<^verbatim>\<open>waitMs\<close> absent (the same outcome and
  the same world afterwards), and in both cases it takes no pause.
\<close>

theorem zero_wait_is_no_wait:
  "captureWithHar E urls (options\<lparr>waitMs := Some 0\<rparr>) = captureWithHar E urls (options\<lparr>waitMs := None\<rparr>)
   \<and> pauses (events (snd (captureWithHar E urls (options\<lparr>waitMs := Some 0\<rparr>) w))) = pauses (events w)
   \<and> pauses (events (snd (captureWithHar E urls (options\<lparr>waitMs := None\<rparr>) w))) = pauses (events w)"
proof (intro conjI)
  show "captureWithHar E urls (options\<lparr>waitMs := Some 0\<rparr>)
      = captureWithHar E urls (options\<lparr>waitMs := None\<rparr>)"
    by (simp add: captureWithHar_def visit_all_zero_wait)
next
  show "pauses (events (snd (captureWithHar E urls (options\<lparr>waitMs := Some 0\<rparr>) w)))
      = pauses (events w)"
    by (rule captureWithHar_pauses) (simp add: truthy_def)
next
  show "pauses (events (snd (captureWithHar E urls (options\<lparr>waitMs := None\<rparr>) w)))
      = pauses (events w)"
    by (rule captureWithHar_pauses) (simp add: truthy_def)
qed

theorem zero_wait_is_no_wait_witness:
  "captureWithHar happy two_urls (opts0\<lparr>waitMs := Some 0\<rparr>)
     = captureWithHar happy two_urls (opts0\<lparr>waitMs := None\<rparr>)
   \<and> pauses (events (snd (captureWithHar happy two_urls (opts0\<lparr>waitMs := Some 0\<rparr>) w0))) = []
   \<and> pauses (events (snd (captureWithHar happy [''https://example.com'']
                            (opts0\<lparr>waitMs := Some 500\<rparr>) w0))) = [500]"
  using zero_wait_is_no_wait [of happy two_urls opts0 w0] pause_when_set
  by (simp add: w0_def)

end
